theory Spec2Isabelle
  imports Complex_Main "HOL-Library.Sublist"
begin

section \<open>Data model of Hybrid-Join.py\<close>

text \<open>
  The program is the class \<open>HybridJoinBatch\<close>: a reader thread turns the rows of a
  transaction file into dictionaries and puts them on a bounded queue; a join thread pops
  them, looks each one up in the customer master, the product master and the set of valid
  dates, and collects the joined tuples in \<open>insert_batch\<close>, which \<open>flush_batch\<close>
  writes to the table \<open>fact_sales\<close>.

  Modelling decisions, all of them about what lies outside the repository:
  \<^item> a Python \<open>float\<close> is a \<open>real\<close>: the product \<open>quantity * unit_price\<close> is exact,
    rounding of IEEE doubles is not modelled;
  \<^item> a text column of a pandas row is given by the string that \<open>str(row[...])\<close>
    returns (\<open>str\<close> does not raise on a pandas scalar); a numeric column holds a number
    or NaN (the missing value);
  \<^item> strings are ASCII;
  \<^item> the \<open>print\<close> calls, and with them the local \<open>last_report\<close>, are left out, and
    so is the removal of an unnamed index column from a chunk, which changes no named
    column.
\<close>

text \<open>The exception of a conversion that fails.\<close>

datatype py_error = ValueError

text \<open>A cell of a numeric pandas column.\<close>

datatype cell = NaN | Num real


text \<open>\<open>int(x)\<close> on a numeric cell: truncation towards zero, ValueError on NaN.\<close>

fun py_int :: "cell \<Rightarrow> py_error + int" where
  "py_int NaN = Inl ValueError"
| "py_int (Num r) = Inr (if 0 \<le> r then \<lfloor>r\<rfloor> else \<lceil>r\<rceil>)"

text \<open>\<open>str.strip()\<close>: the ASCII characters Python counts as white space.\<close>

definition py_isspace :: "char \<Rightarrow> bool" where
  "py_isspace c \<longleftrightarrow>
     c \<in> set [CHR 0x09, CHR 0x0A, CHR 0x0B, CHR 0x0C, CHR 0x0D,
                CHR 0x1C, CHR 0x1D, CHR 0x1E, CHR 0x1F, CHR 0x20]"

definition strip :: "string \<Rightarrow> string" where
  "strip s = rev (dropWhile py_isspace (rev (dropWhile py_isspace s)))"

subsection \<open>Rows of the two CSV files\<close>

text \<open>A row of the transaction file, columns orderID, Customer_ID, Product_ID, quantity, date.\<close>

record raw_row =
  col_orderID :: string
  col_Customer_ID :: string
  col_Product_ID :: string
  col_quantity :: cell
  col_date :: string


text \<open>The dictionary \<open>transaction\<close> of \<open>stream_reader_thread\<close>.\<close>

record transaction =
  order_id :: string
  customer_id :: string
  product_id :: string
  quantity :: int
  date :: string

text \<open>An entry of \<open>product_master\<close>.\<close>

record product =
  pm_product_id :: string
  product_category :: string
  price :: real
  store_id :: string
  supplier_id :: string

text \<open>A row of dim_customer as the cursor returns it (column name, value).\<close>

type_synonym customer_row = "(string \<times> string) list"

text \<open>
  The tuple \<open>values\<close> of \<open>hybridjoin_thread\<close>: order id, customer id, product id,
  date id, store id, supplier id, quantity, unit price, total amount.
\<close>

type_synonym fact_row =
  "string \<times> string \<times> string \<times> int \<times> string \<times> string \<times> int \<times> real \<times> real"




section \<open>load_master_data: the product master\<close>







section \<open>The date step: datetime.strptime(s, '%Y-%m-%d') and strftime('%Y%m%d')\<close>

text \<open>
  \<open>strptime\<close> compiles the format to the regular expression
  \<^verbatim>\<open>(?P<Y>\d\d\d\d)-(?P<m>1[0-2]|0[1-9]|[1-9])-(?P<d>3[0-1]|[1-2]\d|0[1-9]|[1-9]| [1-9])\<close>,
  matches it at the start of the string, and raises ValueError when nothing matches, when
  text is left over, or when the three numbers are not a date of the calendar. Each
  matcher below returns the ways its group can match, in the order the alternatives are
  tried, with the rest of the string.
\<close>

definition digit_of :: "char \<Rightarrow> int option" where
  "digit_of c = map_of [(CHR ''0'', 0), (CHR ''1'', 1), (CHR ''2'', 2), (CHR ''3'', 3),
     (CHR ''4'', 4), (CHR ''5'', 5), (CHR ''6'', 6), (CHR ''7'', 7), (CHR ''8'', 8),
     (CHR ''9'', 9)] c"

text \<open>One character whose digit lies between \<open>lo\<close> and \<open>hi\<close>.\<close>

fun digit_in :: "int \<Rightarrow> int \<Rightarrow> string \<Rightarrow> (int \<times> string) list" where
  "digit_in lo hi [] = []"
| "digit_in lo hi (c # cs) =
     (case digit_of c of
        None \<Rightarrow> []
      | Some v \<Rightarrow> if lo \<le> v \<and> v \<le> hi then [(v, cs)] else [])"

text \<open>Two digits in a row, read as a number.\<close>

definition two_digits :: "int \<Rightarrow> int \<Rightarrow> int \<Rightarrow> int \<Rightarrow> string \<Rightarrow> (int \<times> string) list" where
  "two_digits lo1 hi1 lo2 hi2 s =
     concat (map (\<lambda>(a, r). map (\<lambda>(b, r'). (10 * a + b, r')) (digit_in lo2 hi2 r))
                 (digit_in lo1 hi1 s))"

definition lit :: "char \<Rightarrow> string \<Rightarrow> string list" where
  "lit c s = (case s of [] \<Rightarrow> [] | x # r \<Rightarrow> if x = c then [r] else [])"

definition match_Y :: "string \<Rightarrow> (int \<times> string) list" where
  "match_Y s =
     concat (map (\<lambda>(a, r). map (\<lambda>(b, r'). (100 * a + b, r')) (two_digits 0 9 0 9 r))
                 (two_digits 0 9 0 9 s))"

definition match_m :: "string \<Rightarrow> (int \<times> string) list" where
  "match_m s = two_digits 1 1 0 2 s @ two_digits 0 0 1 9 s @ digit_in 1 9 s"

definition match_d :: "string \<Rightarrow> (int \<times> string) list" where
  "match_d s =
     two_digits 3 3 0 1 s @ two_digits 1 2 0 9 s @ two_digits 0 0 1 9 s @ digit_in 1 9 s
     @ concat (map (digit_in 1 9) (lit CHR 0x20 s))"

text \<open>All matches of the whole expression, the one the regex engine returns first.\<close>

definition match_ymd :: "string \<Rightarrow> ((int \<times> int \<times> int) \<times> string) list" where
  "match_ymd s =
     concat (map (\<lambda>(y, r0).
       concat (map (\<lambda>r1.
         concat (map (\<lambda>(m, r2).
           concat (map (\<lambda>r3.
             map (\<lambda>(d, r4). ((y, m, d), r4)) (match_d r3))
           (lit CHR ''-'' r2)))
         (match_m r1)))
       (lit CHR ''-'' r0)))
     (match_Y s))"

definition is_leap :: "int \<Rightarrow> bool" where
  "is_leap y \<longleftrightarrow> y mod 4 = 0 \<and> (y mod 100 \<noteq> 0 \<or> y mod 400 = 0)"

definition days_in_month :: "int \<Rightarrow> int \<Rightarrow> int" where
  "days_in_month y m =
     (if m = 2 then (if is_leap y then 29 else 28)
      else if m \<in> {4, 6, 9, 11} then 30 else 31)"

definition strptime_ymd :: "string \<Rightarrow> py_error + (int \<times> int \<times> int)" where
  "strptime_ymd s =
     (case match_ymd s of
        [] \<Rightarrow> Inl ValueError
      | ((y, m, d), rest) # _ \<Rightarrow>
          if rest \<noteq> [] then Inl ValueError
          else if 1 \<le> y \<and> 1 \<le> m \<and> m \<le> 12 \<and> 1 \<le> d \<and> d \<le> days_in_month y m
               then Inr (y, m, d)
          else Inl ValueError)"

text \<open>
  Lines 245-246: \<open>int(date_obj.strftime('%Y%m%d'))\<close>. Month and day are printed with
  two digits, so the number is \<open>10000 * year + 100 * month + day\<close> however the year is
  padded.
\<close>

definition date_id_of :: "string \<Rightarrow> py_error + int" where
  "date_id_of s =
     (case strptime_ymd s of
        Inl e \<Rightarrow> Inl e
      | Inr (y, m, d) \<Rightarrow> Inr (10000 * y + 100 * m + d))"

section \<open>The join chain of hybridjoin_thread\<close>

text \<open>Which of the four \<open>self.total_skipped += 1; continue\<close> sites a record leaves by.\<close>

datatype skip_site = CustomerMiss | ProductMiss | DateMiss | DateError

text \<open>Lines 229-272: the three lookups and the tuple \<open>values\<close>.\<close>

definition join_tuple ::
  "(string \<rightharpoonup> customer_row) \<Rightarrow> (string \<rightharpoonup> product) \<Rightarrow> int set \<Rightarrow> transaction
     \<Rightarrow> skip_site + fact_row" where
  "join_tuple cm pm vd t =
     (if cm (customer_id t) = None then Inl CustomerMiss
      else case pm (product_id t) of
        None \<Rightarrow> Inl ProductMiss
      | Some product_data \<Rightarrow>
          (case date_id_of (date t) of
             Inl e \<Rightarrow> Inl DateError
           | Inr date_id \<Rightarrow>
               if date_id \<notin> vd then Inl DateMiss
               else
                 let unit_price = price product_data;
                     total_amount = of_int (quantity t) * unit_price
                 in Inr (order_id t, customer_id t, product_id t, date_id,
                         store_id product_data, supplier_id product_data,
                         quantity t, unit_price, total_amount)))"

section \<open>The shared state of a HybridJoinBatch object\<close>

text \<open>
  The connection \<open>db_conn\<close>: the committed rows of \<open>fact_sales\<close> and the calls made
  on the connection and its cursors, in order. A call that raises is in the log too.
\<close>

datatype db_call = Cursor | ExecuteMany "fact_row list" | Commit | Rollback | Close

record db =
  fact_sales :: "fact_row list"
  calls :: "db_call list"

text \<open>
  What the database does during one call of \<open>flush_batch\<close>: nothing goes wrong, or one of
  the four calls inside the \<open>try\<close> raises. A \<open>rollback\<close> that raises is swallowed by
  the bare \<open>except: pass\<close> and changes nothing the program sees. Rows of a transaction
  that was not committed are not in the table.
\<close>

datatype db_fault = NoFault | CursorFault | ExecuteFault | CommitFault | CloseFault

text \<open>The chunks \<open>pd.read_csv(csv_file, chunksize=chunk_size)\<close> yields; reading one may raise.\<close>

datatype chunk = Chunk "raw_row list" | ChunkError

text \<open>The transaction file: it cannot be opened, or it gives an iterator of chunks.\<close>

datatype feed = OpenError | Feed "chunk list"

text \<open>
  Where \<open>stream_reader_thread\<close> stands: in \<open>join_ready.wait()\<close> (line 141) with the
  file still to open, at the head of the loop over the chunks (line 148), at the head of
  the loop over the rows of a chunk (line 155), in \<open>stream_buffer.put\<close> (line 167),
  before the increment of \<open>total_stream_tuples\<close> (line 168), or returned.
\<close>

datatype reader_pc =
    RWait feed
  | RNextChunk "chunk list"
  | RNextRow "raw_row list" "chunk list"
  | RPut transaction "raw_row list" "chunk list"
  | RCount "raw_row list" "chunk list"
  | RDone

text \<open>
  Where \<open>hybridjoin_thread\<close> stands: before \<open>join_ready.set()\<close> (line 219), at the
  test of \<open>while self.running\<close> (line 224), in \<open>stream_buffer.get\<close> (line 226), in
  the handler of \<open>queue.Empty\<close> before the test of \<open>stream_complete\<close> (line 290),
  before the test of \<open>stream_buffer.empty()\<close> (line 294), behind the loop (line 298),
  or returned.
\<close>

datatype join_pc = JStart | JLoop | JGet | JOnEmpty | JCheckEmpty | JFinal | JDone

record state =
  batch_size :: int
  stream_buffer :: "transaction list"
  insert_batch :: "fact_row list"
  total_stream_tuples :: nat
  total_joined_tuples :: nat
  total_loaded_tuples :: nat
  total_skipped :: nat
  stream_complete :: bool
  running :: bool
  join_ready :: bool
  customer_master :: "string \<rightharpoonup> customer_row"
  product_master :: "string \<rightharpoonup> product"
  valid_dates :: "int set"
  db_conn :: db
  processed :: nat
  reader :: reader_pc
  joiner :: join_pc

text \<open>\<open>queue.Queue(maxsize=10000)\<close>.\<close>

definition maxsize :: nat where
  "maxsize = 10000"

text \<open>
  The object when \<open>run\<close> starts the two threads: \<open>__init__\<close> has set the fields,
  \<open>truncate_fact_table\<close> has left \<open>fact_sales\<close> empty and \<open>load_master_data\<close> has
  filled the three master structures.
\<close>

definition init_state ::
  "int \<Rightarrow> (string \<rightharpoonup> customer_row) \<Rightarrow> (string \<rightharpoonup> product) \<Rightarrow> int set \<Rightarrow> feed \<Rightarrow> state" where
  "init_state bs cm pm vd fd =
     \<lparr> batch_size = bs, stream_buffer = [], insert_batch = [],
       total_stream_tuples = 0, total_joined_tuples = 0, total_loaded_tuples = 0,
       total_skipped = 0, stream_complete = False, running = True, join_ready = False,
       customer_master = cm, product_master = pm, valid_dates = vd,
       db_conn = \<lparr> fact_sales = [], calls = [] \<rparr>,
       processed = 0, reader = RWait fd, joiner = JStart \<rparr>"

section \<open>flush_batch\<close>

definition db_call :: "db_call \<Rightarrow> state \<Rightarrow> state" where
  "db_call c s = s\<lparr>db_conn := (db_conn s)\<lparr>calls := calls (db_conn s) @ [c]\<rparr>\<rparr>"

text \<open>Lines 207-214: the handler; it returns 0.\<close>

definition flush_failed :: "state \<Rightarrow> nat \<times> state" where
  "flush_failed s = (0, (db_call Rollback s)\<lparr>insert_batch := []\<rparr>)"

text \<open>Line 198 when it succeeds: the rows given to \<open>executemany\<close> are in the table.\<close>

definition db_commit :: "fact_row list \<Rightarrow> state \<Rightarrow> state" where
  "db_commit b s =
     (db_call Commit s)\<lparr>db_conn :=
        (db_conn (db_call Commit s))\<lparr>fact_sales := fact_sales (db_conn s) @ b\<rparr>\<rparr>"

text \<open>Lines 182-214. The result is the returned count and the object afterwards.\<close>

definition flush_batch :: "db_fault \<Rightarrow> state \<Rightarrow> nat \<times> state" where
  "flush_batch f s =
     (if insert_batch s = [] then (0, s)
      else
        let s1 = db_call Cursor s in
        if f = CursorFault then flush_failed s1
        else
          let s2 = db_call (ExecuteMany (insert_batch s1)) s1 in
          if f = ExecuteFault then flush_failed s2
          else if f = CommitFault then flush_failed (db_call Commit s2)
          else
            let s3 = db_commit (insert_batch s2) s2;
                count = length (insert_batch s3);
                s4 = s3\<lparr>total_loaded_tuples := total_loaded_tuples s3 + count\<rparr>;
                s5 = s4\<lparr>insert_batch := []\<rparr>;
                s6 = db_call Close s5
            in if f = CloseFault then flush_failed s6 else (count, s6))"

section \<open>hybridjoin_thread\<close>

text \<open>
  Lines 227-279: the body of the loop for a popped record. \<open>f\<close> is what the database
  does if this record fills the batch.
\<close>

definition process_tuple :: "db_fault \<Rightarrow> transaction \<Rightarrow> state \<Rightarrow> state" where
  "process_tuple f stream_tuple s =
     (let s0 = s\<lparr>processed := processed s + 1\<rparr> in
      case join_tuple (customer_master s0) (product_master s0) (valid_dates s0) stream_tuple of
        Inl site \<Rightarrow> s0\<lparr>total_skipped := total_skipped s0 + 1\<rparr>
      | Inr values \<Rightarrow>
          let s1 = s0\<lparr>insert_batch := insert_batch s0 @ [values]\<rparr>;
              s2 = s1\<lparr>total_joined_tuples := total_joined_tuples s1 + 1\<rparr>
          in if int (length (insert_batch s2)) \<ge> batch_size s2
             then snd (flush_batch f s2) else s2)"

text \<open>Lines 291-292 and 299-301: \<open>if self.insert_batch: self.flush_batch()\<close>.\<close>

definition flush_if_any :: "db_fault \<Rightarrow> state \<Rightarrow> state" where
  "flush_if_any f s = (if insert_batch s \<noteq> [] then snd (flush_batch f s) else s)"

text \<open>
  One step of the join thread. At \<open>JGet\<close> the step is the end of \<open>get(timeout=0.5)\<close>:
  it pops the head of the queue, or the time is up on an empty queue and
  \<open>queue.Empty\<close> is raised. What the thread does with a popped record touches only
  what no other thread reads or writes, so it is one step with the pop.
\<close>

definition joiner_step :: "db_fault \<Rightarrow> state \<Rightarrow> state" where
  "joiner_step f s =
     (case joiner s of
        JStart \<Rightarrow> s\<lparr>join_ready := True, joiner := JLoop\<rparr>
      | JLoop \<Rightarrow> if running s then s\<lparr>joiner := JGet\<rparr> else s\<lparr>joiner := JFinal\<rparr>
      | JGet \<Rightarrow>
          (case stream_buffer s of
             [] \<Rightarrow> s\<lparr>joiner := JOnEmpty\<rparr>
           | stream_tuple # rest \<Rightarrow>
               (process_tuple f stream_tuple (s\<lparr>stream_buffer := rest\<rparr>))\<lparr>joiner := JLoop\<rparr>)
      | JOnEmpty \<Rightarrow>
          if stream_complete s then (flush_if_any f s)\<lparr>joiner := JCheckEmpty\<rparr>
          else s\<lparr>joiner := JLoop\<rparr>
      | JCheckEmpty \<Rightarrow>
          if stream_buffer s = [] then s\<lparr>joiner := JFinal\<rparr> else s\<lparr>joiner := JLoop\<rparr>
      | JFinal \<Rightarrow> (flush_if_any f s)\<lparr>joiner := JDone\<rparr>
      | JDone \<Rightarrow> s)"

section \<open>stream_reader_thread\<close>

text \<open>Lines 159-165: the dictionary built from a row; \<open>int\<close> may raise.\<close>

definition make_transaction :: "raw_row \<Rightarrow> py_error + transaction" where
  "make_transaction row =
     (case py_int (col_quantity row) of
        Inl e \<Rightarrow> Inl e
      | Inr q \<Rightarrow>
          Inr \<lparr> order_id = col_orderID row,
                customer_id = col_Customer_ID row,
                product_id = strip (col_Product_ID row),
                quantity = q,
                date = col_date row \<rparr>)"

text \<open>Lines 175-180: every way out of the \<open>try\<close> runs the \<open>finally\<close>.\<close>

definition reader_exit :: "state \<Rightarrow> state" where
  "reader_exit s = s\<lparr>stream_complete := True, reader := RDone\<rparr>"

text \<open>
  One step of the reader thread. At \<open>RWait\<close> it is blocked until the join thread has set
  \<open>join_ready\<close>; at \<open>RPut\<close> it is blocked while the queue is full. The \<open>break\<close>
  of line 157 leaves the loop over the rows only: the thread fetches the next chunk before
  the \<open>break\<close> of line 150 ends the outer loop.
\<close>

definition reader_step :: "state \<Rightarrow> state" where
  "reader_step s =
     (case reader s of
        RWait fd \<Rightarrow>
          if \<not> join_ready s then s
          else (case fd of
                  OpenError \<Rightarrow> reader_exit s
                | Feed cs \<Rightarrow> s\<lparr>reader := RNextChunk cs\<rparr>)
      | RNextChunk cs \<Rightarrow>
          (case cs of
             [] \<Rightarrow> reader_exit s
           | ChunkError # cs' \<Rightarrow> reader_exit s
           | Chunk rows # cs' \<Rightarrow>
               if \<not> running s then reader_exit s else s\<lparr>reader := RNextRow rows cs'\<rparr>)
      | RNextRow rows cs \<Rightarrow>
          (case rows of
             [] \<Rightarrow> s\<lparr>reader := RNextChunk cs\<rparr>
           | row # rows' \<Rightarrow>
               if \<not> running s then s\<lparr>reader := RNextChunk cs\<rparr>
               else (case make_transaction row of
                       Inl e \<Rightarrow> reader_exit s
                     | Inr t \<Rightarrow> s\<lparr>reader := RPut t rows' cs\<rparr>))
      | RPut t rows cs \<Rightarrow>
          if length (stream_buffer s) < maxsize
          then s\<lparr>stream_buffer := stream_buffer s @ [t], reader := RCount rows cs\<rparr>
          else s
      | RCount rows cs \<Rightarrow>
          s\<lparr>total_stream_tuples := total_stream_tuples s + 1, reader := RNextRow rows cs\<rparr>
      | RDone \<Rightarrow> s)"

section \<open>The two threads together\<close>

text \<open>
  A run is a schedule: which thread moves next (the join thread with what the database
  does if it flushes in that step), or the KeyboardInterrupt of \<open>run\<close> clearing
  \<open>running\<close>.
\<close>

datatype event = ReaderStep | JoinStep db_fault | Interrupt

fun step :: "event \<Rightarrow> state \<Rightarrow> state" where
  "step ReaderStep s = reader_step s"
| "step (JoinStep f) s = joiner_step f s"
| "step Interrupt s = s\<lparr>running := False\<rparr>"

fun exec :: "event list \<Rightarrow> state \<Rightarrow> state" where
  "exec [] s = s"
| "exec (e # es) s = exec es (step e s)"

section \<open>What a run reads and writes\<close>

text \<open>
  The records the reader produces from the file when nothing stops it: every row in the
  order of the file up to the first row that does not convert, the first chunk that
  cannot be read, or the end.
\<close>

definition well_formed :: "raw_row \<Rightarrow> bool" where
  "well_formed row = (case make_transaction row of Inl e \<Rightarrow> False | Inr t \<Rightarrow> True)"

fun read_rows :: "raw_row list \<Rightarrow> transaction list" where
  "read_rows [] = []"
| "read_rows (row # rows) =
     (case make_transaction row of Inl e \<Rightarrow> [] | Inr t \<Rightarrow> t # read_rows rows)"

fun read_chunks :: "chunk list \<Rightarrow> transaction list" where
  "read_chunks [] = []"
| "read_chunks (ChunkError # cs) = []"
| "read_chunks (Chunk rows # cs) =
     read_rows rows @ (if list_all well_formed rows then read_chunks cs else [])"



definition read_feed :: "feed \<Rightarrow> transaction list" where
  "read_feed fd = (case fd of OpenError \<Rightarrow> [] | Feed cs \<Rightarrow> read_chunks cs)"

definition joined_rows ::
  "(string \<rightharpoonup> customer_row) \<Rightarrow> (string \<rightharpoonup> product) \<Rightarrow> int set \<Rightarrow> transaction list
     \<Rightarrow> fact_row list" where
  "joined_rows cm pm vd ts =
     concat (map (\<lambda>t. case join_tuple cm pm vd t of Inl site \<Rightarrow> [] | Inr v \<Rightarrow> [v]) ts)"


section \<open>Invariants of a run\<close>

text \<open>A record the reader has put on the queue and not yet counted.\<close>

definition inflight :: "reader_pc \<Rightarrow> nat" where
  "inflight pc = (case pc of RCount rows cs \<Rightarrow> 1 | _ \<Rightarrow> 0)"

definition counters_inv :: "state \<Rightarrow> bool" where
  "counters_inv s \<longleftrightarrow>
     processed s = total_joined_tuples s + total_skipped s
   \<and> total_stream_tuples s + inflight (reader s) = processed s + length (stream_buffer s)
   \<and> length (fact_sales (db_conn s)) = total_loaded_tuples s"

definition flags_inv :: "state \<Rightarrow> bool" where
  "flags_inv s \<longleftrightarrow>
     (stream_complete s \<longleftrightarrow> reader s = RDone)
   \<and> (joiner s = JCheckEmpty \<longrightarrow> stream_complete s)
   \<and> ((joiner s = JFinal \<or> joiner s = JDone) \<and> running s
        \<longrightarrow> stream_complete s \<and> stream_buffer s = [])
   \<and> (joiner s = JDone \<longrightarrow> insert_batch s = [])"

definition batch_inv :: "state \<Rightarrow> bool" where
  "batch_inv s \<longleftrightarrow> int (length (insert_batch s)) < batch_size s"

text \<open>The output so far: the table followed by the batch.\<close>

definition out_rows :: "state \<Rightarrow> fact_row list" where
  "out_rows s = fact_sales (db_conn s) @ insert_batch s"

text \<open>
  \<open>R\<close> is what the reader still puts on the queue from where it stands, if no
  interrupt stops it.
\<close>

definition reader_rest :: "state \<Rightarrow> transaction list \<Rightarrow> bool" where
  "reader_rest s R \<longleftrightarrow>
     (case reader s of
        RWait fd \<Rightarrow> running s \<longrightarrow> R = read_feed fd
      | RNextChunk cs \<Rightarrow> running s \<longrightarrow> R = read_chunks cs
      | RNextRow rows cs \<Rightarrow> running s \<longrightarrow> R = read_chunks (Chunk rows # cs)
      | RPut t rows cs \<Rightarrow> R = t # read_chunks (Chunk rows # cs)
      | RCount rows cs \<Rightarrow> running s \<longrightarrow> R = read_chunks (Chunk rows # cs)
      | RDone \<Rightarrow> running s \<longrightarrow> R = [])"

text \<open>
  The records of the file are those already popped (\<open>D\<close>), those on the queue and
  those still to come, in this order; the output is a subsequence of the joined tuples of
  the popped ones.
\<close>

definition order_inv :: "transaction list \<Rightarrow> state \<Rightarrow> bool" where
  "order_inv full s \<longleftrightarrow>
     (\<exists>D R. full = D @ stream_buffer s @ R
        \<and> length D = processed s
        \<and> subseq (out_rows s) (joined_rows (customer_master s) (product_master s) (valid_dates s) D)
        \<and> length (joined_rows (customer_master s) (product_master s) (valid_dates s) D)
            = total_joined_tuples s
        \<and> reader_rest s R)"




section \<open>A schedule that ends the run\<close>




section \<open>A small run\<close>

text \<open>
  One customer, one product at 2.5 apiece, one valid date, and a file of three rows: the
  first joins, the second has an unknown customer, the third a date that does not parse.
\<close>

definition ex_customers :: "string \<rightharpoonup> customer_row" where
  "ex_customers = [''C1'' \<mapsto> [(''gender'', ''F'')]]"

definition ex_product :: product where
  "ex_product = \<lparr> pm_product_id = ''P1'', product_category = ''Toys'', price = 5 / 2,
                   store_id = ''S1'', supplier_id = ''U1'' \<rparr>"

definition ex_products :: "string \<rightharpoonup> product" where
  "ex_products = [''P1'' \<mapsto> ex_product]"

definition ex_dates :: "int set" where
  "ex_dates = {20240315}"

definition ex_row1 :: raw_row where
  "ex_row1 = \<lparr> col_orderID = ''O1'', col_Customer_ID = ''C1'', col_Product_ID = '' P1 '',
                col_quantity = Num 4, col_date = ''2024-03-15'' \<rparr>"

definition ex_row2 :: raw_row where
  "ex_row2 = \<lparr> col_orderID = ''O2'', col_Customer_ID = ''C9'', col_Product_ID = ''P1'',
                col_quantity = Num 1, col_date = ''2024-03-15'' \<rparr>"

definition ex_row3 :: raw_row where
  "ex_row3 = \<lparr> col_orderID = ''O3'', col_Customer_ID = ''C1'', col_Product_ID = ''P1'',
                col_quantity = Num 2, col_date = ''bad-date'' \<rparr>"

text \<open>A row with no quantity.\<close>

definition ex_bad_row :: raw_row where
  "ex_bad_row = \<lparr> col_orderID = ''O4'', col_Customer_ID = ''C1'', col_Product_ID = ''P1'',
                   col_quantity = NaN, col_date = ''2024-03-15'' \<rparr>"

definition ex_t1 :: transaction where
  "ex_t1 = \<lparr> order_id = ''O1'', customer_id = ''C1'', product_id = ''P1'', quantity = 4,
              date = ''2024-03-15'' \<rparr>"

definition ex_t2 :: transaction where
  "ex_t2 = \<lparr> order_id = ''O2'', customer_id = ''C9'', product_id = ''P1'', quantity = 1,
              date = ''2024-03-15'' \<rparr>"

definition ex_t3 :: transaction where
  "ex_t3 = \<lparr> order_id = ''O3'', customer_id = ''C1'', product_id = ''P1'', quantity = 2,
              date = ''bad-date'' \<rparr>"

definition ex_v1 :: fact_row where
  "ex_v1 = (''O1'', ''C1'', ''P1'', 20240315, ''S1'', ''U1'', 4, 5 / 2, 10)"

definition ex_feed :: feed where
  "ex_feed = Feed [Chunk [ex_row1, ex_row2], Chunk [ex_row3]]"

definition ex_init :: state where
  "ex_init = init_state 2 ex_customers ex_products ex_dates ex_feed"

text \<open>
  A schedule that runs both threads to their end: the join thread starts and polls an
  empty queue once, the reader puts the three records with the join thread popping in
  between, and the join thread drains the queue and leaves its loop.
\<close>

definition ex_schedule :: "event list" where
  "ex_schedule =
     [JoinStep NoFault, JoinStep NoFault, JoinStep NoFault, JoinStep NoFault]
     @ replicate 5 ReaderStep
     @ [JoinStep NoFault, JoinStep NoFault, JoinStep NoFault]
     @ replicate 10 ReaderStep
     @ replicate 8 (JoinStep NoFault)"





text \<open>A file whose second row has no quantity, and a run of both threads to their end.\<close>

definition ex_feed_bad :: feed where
  "ex_feed_bad = Feed [Chunk [ex_row1, ex_bad_row, ex_row3]]"

definition ex_init_bad :: state where
  "ex_init_bad = init_state 2 ex_customers ex_products ex_dates ex_feed_bad"

definition ex_schedule_bad :: "event list" where
  "ex_schedule_bad = JoinStep NoFault # replicate 6 ReaderStep @ replicate 7 (JoinStep NoFault)"

text \<open>
  States of the two runs: the first record joined and waiting in the batch; the join
  thread about to test the queue for the last time; the ends of the runs; the first run
  interrupted with a record in the batch; the reader in front of the row with no quantity.
\<close>

definition ex_mid :: state where
  "ex_mid = exec (take 11 ex_schedule) ex_init"

definition ex_check :: state where
  "ex_check = exec (take 28 ex_schedule) ex_init"

definition ex_end :: state where
  "ex_end = exec ex_schedule ex_init"

definition ex_cancelled :: state where
  "ex_cancelled = exec (take 11 ex_schedule @ [Interrupt, JoinStep NoFault]) ex_init"

definition ex_bad_mid :: state where
  "ex_bad_mid = exec (take 6 ex_schedule_bad) ex_init_bad"

definition ex_bad_end :: state where
  "ex_bad_end = exec ex_schedule_bad ex_init_bad"

text \<open>
  Five orders that all join, read in two chunks with a batch size of 2, the two threads
  taking turns.
\<close>

definition ex_order :: "string \<Rightarrow> real \<Rightarrow> raw_row" where
  "ex_order oid q = \<lparr> col_orderID = oid, col_Customer_ID = ''C1'', col_Product_ID = ''P1'',
                       col_quantity = Num q, col_date = ''2024-03-15'' \<rparr>"


definition ex_feed5 :: feed where
  "ex_feed5 = Feed [Chunk [ex_order ''A'' 1, ex_order ''B'' 2, ex_order ''C'' 3],
                    Chunk [ex_order ''D'' 4, ex_order ''E'' 5]]"

definition ex_init5 :: state where
  "ex_init5 = init_state 2 ex_customers ex_products ex_dates ex_feed5"

definition ex_schedule5 :: "event list" where
  "ex_schedule5 =
     JoinStep NoFault # concat (replicate 21 [ReaderStep, JoinStep NoFault])
     @ replicate 3 (JoinStep NoFault)"

definition ex_end5 :: state where
  "ex_end5 = exec ex_schedule5 ex_init5"

section \<open>What flush_batch and process_tuple leave alone\<close>

lemma flush_batch_frame [simp]:
  "batch_size (snd (flush_batch f s)) = batch_size s"
  "stream_buffer (snd (flush_batch f s)) = stream_buffer s"
  "total_stream_tuples (snd (flush_batch f s)) = total_stream_tuples s"
  "total_joined_tuples (snd (flush_batch f s)) = total_joined_tuples s"
  "total_skipped (snd (flush_batch f s)) = total_skipped s"
  "stream_complete (snd (flush_batch f s)) = stream_complete s"
  "running (snd (flush_batch f s)) = running s"
  "join_ready (snd (flush_batch f s)) = join_ready s"
  "customer_master (snd (flush_batch f s)) = customer_master s"
  "product_master (snd (flush_batch f s)) = product_master s"
  "valid_dates (snd (flush_batch f s)) = valid_dates s"
  "processed (snd (flush_batch f s)) = processed s"
  "reader (snd (flush_batch f s)) = reader s"
  "joiner (snd (flush_batch f s)) = joiner s"
  by (simp_all add: flush_batch_def flush_failed_def db_call_def db_commit_def Let_def)

lemma flush_batch_clears [simp]:
  "insert_batch (snd (flush_batch f s)) = []"
  by (simp add: flush_batch_def flush_failed_def db_call_def db_commit_def Let_def)


lemma flush_batch_calls:
  "insert_batch s \<noteq> [] \<Longrightarrow>
   \<exists>cs. calls (db_conn (snd (flush_batch f s))) = calls (db_conn s) @ Cursor # cs"
  by (simp add: flush_batch_def flush_failed_def db_call_def db_commit_def Let_def)

lemma flush_batch_loaded:
  "length (fact_sales (db_conn s)) = total_loaded_tuples s \<Longrightarrow>
   length (fact_sales (db_conn (snd (flush_batch f s)))) = total_loaded_tuples (snd (flush_batch f s))"
  by (simp add: flush_batch_def flush_failed_def db_call_def db_commit_def Let_def)

lemma flush_if_any_frame [simp]:
  "batch_size (flush_if_any f s) = batch_size s"
  "stream_buffer (flush_if_any f s) = stream_buffer s"
  "total_stream_tuples (flush_if_any f s) = total_stream_tuples s"
  "total_joined_tuples (flush_if_any f s) = total_joined_tuples s"
  "total_skipped (flush_if_any f s) = total_skipped s"
  "stream_complete (flush_if_any f s) = stream_complete s"
  "running (flush_if_any f s) = running s"
  "join_ready (flush_if_any f s) = join_ready s"
  "customer_master (flush_if_any f s) = customer_master s"
  "product_master (flush_if_any f s) = product_master s"
  "valid_dates (flush_if_any f s) = valid_dates s"
  "processed (flush_if_any f s) = processed s"
  "reader (flush_if_any f s) = reader s"
  "joiner (flush_if_any f s) = joiner s"
  "insert_batch (flush_if_any f s) = []"
  by (simp_all add: flush_if_any_def)

lemma flush_if_any_loaded:
  "length (fact_sales (db_conn s)) = total_loaded_tuples s \<Longrightarrow>
   length (fact_sales (db_conn (flush_if_any f s))) = total_loaded_tuples (flush_if_any f s)"
  by (simp add: flush_if_any_def flush_batch_loaded)

lemma process_tuple_frame [simp]:
  "batch_size (process_tuple f t s) = batch_size s"
  "stream_buffer (process_tuple f t s) = stream_buffer s"
  "total_stream_tuples (process_tuple f t s) = total_stream_tuples s"
  "stream_complete (process_tuple f t s) = stream_complete s"
  "running (process_tuple f t s) = running s"
  "join_ready (process_tuple f t s) = join_ready s"
  "customer_master (process_tuple f t s) = customer_master s"
  "product_master (process_tuple f t s) = product_master s"
  "valid_dates (process_tuple f t s) = valid_dates s"
  "processed (process_tuple f t s) = processed s + 1"
  "reader (process_tuple f t s) = reader s"
  "joiner (process_tuple f t s) = joiner s"
  by (simp_all add: process_tuple_def Let_def split: sum.splits)

lemma process_tuple_counts:
  "total_joined_tuples (process_tuple f t s) + total_skipped (process_tuple f t s)
     = total_joined_tuples s + total_skipped s + 1"
  by (simp add: process_tuple_def Let_def split: sum.splits)

lemma process_tuple_loaded:
  "length (fact_sales (db_conn s)) = total_loaded_tuples s \<Longrightarrow>
   length (fact_sales (db_conn (process_tuple f t s))) = total_loaded_tuples (process_tuple f t s)"
  by (simp add: process_tuple_def Let_def flush_batch_loaded split: sum.splits)

lemma process_tuple_batch:
  "1 \<le> batch_size s \<Longrightarrow> int (length (insert_batch s)) < batch_size s \<Longrightarrow>
   int (length (insert_batch (process_tuple f t s))) < batch_size s"
  by (simp add: process_tuple_def Let_def split: sum.splits)

section \<open>The invariants hold along every schedule\<close>

lemma counters_inv_reader: "counters_inv s \<Longrightarrow> counters_inv (reader_step s)"
  by (auto simp add: counters_inv_def reader_step_def reader_exit_def inflight_def
      split: reader_pc.splits feed.splits list.splits chunk.splits sum.splits)

lemma counters_inv_joiner: "counters_inv s \<Longrightarrow> counters_inv (joiner_step f s)"
  using process_tuple_counts [of f _ "s\<lparr>stream_buffer := tl (stream_buffer s)\<rparr>"]
  by (auto simp add: counters_inv_def joiner_step_def flush_if_any_loaded process_tuple_loaded
      split: join_pc.splits list.splits)

lemma flags_inv_reader: "flags_inv s \<Longrightarrow> flags_inv (reader_step s)"
  by (auto simp add: flags_inv_def reader_step_def reader_exit_def
      split: reader_pc.splits feed.splits list.splits chunk.splits sum.splits)

lemma flags_inv_joiner: "flags_inv s \<Longrightarrow> flags_inv (joiner_step f s)"
  by (auto simp add: flags_inv_def joiner_step_def
      split: join_pc.splits list.splits)

lemma batch_inv_reader: "batch_inv s \<Longrightarrow> batch_inv (reader_step s)"
  by (auto simp add: batch_inv_def reader_step_def reader_exit_def
      split: reader_pc.splits feed.splits list.splits chunk.splits sum.splits)

lemma batch_inv_joiner: "1 \<le> batch_size s \<Longrightarrow> batch_inv s \<Longrightarrow> batch_inv (joiner_step f s)"
  using process_tuple_batch [of "s\<lparr>stream_buffer := tl (stream_buffer s)\<rparr>" f]
  by (auto simp add: batch_inv_def joiner_step_def
      split: join_pc.splits list.splits)

lemma step_const:
  "batch_size (step e s) = batch_size s"
  "customer_master (step e s) = customer_master s"
  "product_master (step e s) = product_master s"
  "valid_dates (step e s) = valid_dates s"
  by (cases e; simp add: reader_step_def reader_exit_def joiner_step_def
      split: reader_pc.splits feed.splits list.splits chunk.splits sum.splits join_pc.splits)+

lemma exec_const:
  "batch_size (exec evs s) = batch_size s"
  "customer_master (exec evs s) = customer_master s"
  "product_master (exec evs s) = product_master s"
  "valid_dates (exec evs s) = valid_dates s"
  by (induction evs arbitrary: s; simp add: step_const)+

lemma counters_inv_step: "counters_inv s \<Longrightarrow> counters_inv (step e s)"
  by (cases e) (simp_all add: counters_inv_reader counters_inv_joiner, simp add: counters_inv_def)

lemma flags_inv_step: "flags_inv s \<Longrightarrow> flags_inv (step e s)"
  by (cases e) (simp_all add: flags_inv_reader flags_inv_joiner, auto simp add: flags_inv_def)

lemma batch_inv_step: "1 \<le> batch_size s \<Longrightarrow> batch_inv s \<Longrightarrow> batch_inv (step e s)"
  by (cases e) (simp_all add: batch_inv_reader batch_inv_joiner, simp add: batch_inv_def)

lemma counters_inv_exec: "counters_inv s \<Longrightarrow> counters_inv (exec evs s)"
  by (induction evs arbitrary: s) (simp_all add: counters_inv_step)

lemma flags_inv_exec: "flags_inv s \<Longrightarrow> flags_inv (exec evs s)"
  by (induction evs arbitrary: s) (simp_all add: flags_inv_step)

lemma batch_inv_exec: "1 \<le> batch_size s \<Longrightarrow> batch_inv s \<Longrightarrow> batch_inv (exec evs s)"
  by (induction evs arbitrary: s) (simp_all add: batch_inv_step step_const)

lemma init_invs:
  "counters_inv (init_state bs cm pm vd fd)"
  "flags_inv (init_state bs cm pm vd fd)"
  "1 \<le> bs \<Longrightarrow> batch_inv (init_state bs cm pm vd fd)"
  by (simp_all add: counters_inv_def flags_inv_def batch_inv_def init_state_def inflight_def)

section \<open>The order invariant\<close>

text \<open>A step of the reader moves records from what is still to come to the queue.\<close>

lemma joined_rows_append:
  "joined_rows cm pm vd (xs @ ys) = joined_rows cm pm vd xs @ joined_rows cm pm vd ys"
  by (simp add: joined_rows_def)

lemma reader_step_frame [simp]:
  "insert_batch (reader_step s) = insert_batch s"
  "db_conn (reader_step s) = db_conn s"
  "processed (reader_step s) = processed s"
  "total_joined_tuples (reader_step s) = total_joined_tuples s"
  "total_skipped (reader_step s) = total_skipped s"
  "total_loaded_tuples (reader_step s) = total_loaded_tuples s"
  "customer_master (reader_step s) = customer_master s"
  "product_master (reader_step s) = product_master s"
  "valid_dates (reader_step s) = valid_dates s"
  "batch_size (reader_step s) = batch_size s"
  "running (reader_step s) = running s"
  "joiner (reader_step s) = joiner s"
  by (simp_all add: reader_step_def reader_exit_def
      split: reader_pc.splits feed.splits list.splits chunk.splits sum.splits)

lemma reader_step_put:
  assumes "reader s = RPut t rows cs" and "reader_rest s R"
  shows "\<exists>R'. stream_buffer s @ R = stream_buffer (reader_step s) @ R'
            \<and> reader_rest (reader_step s) R'"
  using assms by (auto simp add: reader_rest_def reader_step_def)

lemma reader_step_other:
  assumes "\<forall>t rows cs. reader s \<noteq> RPut t rows cs" and "reader_rest s R"
  shows "stream_buffer (reader_step s) = stream_buffer s \<and> reader_rest (reader_step s) R"
  using assms
  by (auto simp add: reader_rest_def reader_step_def reader_exit_def read_feed_def
      well_formed_def
      split: reader_pc.splits feed.splits list.splits chunk.splits sum.splits)

lemma reader_step_rest:
  assumes "reader_rest s R"
  shows "\<exists>R'. stream_buffer s @ R = stream_buffer (reader_step s) @ R'
            \<and> reader_rest (reader_step s) R'"
proof (cases "\<exists>t rows cs. reader s = RPut t rows cs")
  case True
  then show ?thesis using assms reader_step_put by blast
next
  case False
  then show ?thesis using assms reader_step_other [of s R] by auto
qed

lemma order_inv_reader:
  assumes "order_inv full s"
  shows "order_inv full (reader_step s)"
proof -
  from assms obtain D R where
    full: "full = D @ stream_buffer s @ R" and
    len: "length D = processed s" and
    sub: "subseq (out_rows s)
            (joined_rows (customer_master s) (product_master s) (valid_dates s) D)" and
    cnt: "length (joined_rows (customer_master s) (product_master s) (valid_dates s) D)
            = total_joined_tuples s" and
    rest: "reader_rest s R"
    unfolding order_inv_def by blast
  from reader_step_rest [OF rest] obtain R' where
    r: "stream_buffer s @ R = stream_buffer (reader_step s) @ R'"
       "reader_rest (reader_step s) R'"
    by blast
  have "full = D @ stream_buffer (reader_step s) @ R'"
    using full r(1) by simp
  moreover have "out_rows (reader_step s) = out_rows s"
    by (simp add: out_rows_def)
  ultimately show ?thesis
    unfolding order_inv_def using len sub cnt r(2) by auto
qed

text \<open>A flush keeps the output or drops the batch; a popped record adds its tuple at the end.\<close>

lemma flush_batch_out:
  "subseq (out_rows (snd (flush_batch f s))) (out_rows s)"
proof -
  have "out_rows (snd (flush_batch f s)) = out_rows s
      \<or> out_rows (snd (flush_batch f s)) = fact_sales (db_conn s)"
    by (simp add: out_rows_def flush_batch_def flush_failed_def db_call_def db_commit_def
        Let_def)
  then show ?thesis
    by (auto simp add: out_rows_def)
qed

lemma flush_if_any_out:
  "subseq (out_rows (flush_if_any f s)) (out_rows s)"
  by (simp add: flush_if_any_def flush_batch_out)

lemma process_tuple_out:
  assumes "subseq (out_rows s) X"
  shows "subseq (out_rows (process_tuple f t s))
           (X @ joined_rows (customer_master s) (product_master s) (valid_dates s) [t])"
proof (cases "join_tuple (customer_master s) (product_master s) (valid_dates s) t")
  case (Inl site)
  then show ?thesis
    using assms by (simp add: process_tuple_def joined_rows_def out_rows_def)
next
  case (Inr v)
  let ?s2 = "s\<lparr>processed := processed s + 1, insert_batch := insert_batch s @ [v],
                total_joined_tuples := total_joined_tuples s + 1\<rparr>"
  have "subseq (out_rows s @ [v]) (X @ [v])"
    using assms by (simp only: subseq_append)
  then have app: "subseq (out_rows ?s2) (X @ [v])"
    by (simp add: out_rows_def)
  have "process_tuple f t s = ?s2 \<or> process_tuple f t s = snd (flush_batch f ?s2)"
    using Inr by (simp add: process_tuple_def Let_def)
  then have "subseq (out_rows (process_tuple f t s)) (out_rows ?s2)"
    using flush_batch_out [of f ?s2] by auto
  then show ?thesis
    using app Inr subseq_order.trans by (fastforce simp add: joined_rows_def)
qed

lemma process_tuple_joined:
  "total_joined_tuples (process_tuple f t s)
     = total_joined_tuples s
       + length (joined_rows (customer_master s) (product_master s) (valid_dates s) [t])"
  by (simp add: process_tuple_def Let_def joined_rows_def split: sum.splits)


lemma reader_rest_cong:
  "reader s' = reader s \<Longrightarrow> running s' = running s \<Longrightarrow> reader_rest s' R = reader_rest s R"
  by (auto simp add: reader_rest_def split: reader_pc.splits)

lemma order_inv_pop:
  assumes "order_inv full s" and "stream_buffer s = t # rest"
  shows "order_inv full ((process_tuple f t (s\<lparr>stream_buffer := rest\<rparr>))\<lparr>joiner := pc\<rparr>)"
proof -
  let ?s0 = "s\<lparr>stream_buffer := rest\<rparr>"
  let ?s' = "(process_tuple f t ?s0)\<lparr>joiner := pc\<rparr>"
  let ?J = "joined_rows (customer_master s) (product_master s) (valid_dates s)"
  from assms(1) obtain D R where
    full: "full = D @ stream_buffer s @ R" and
    len: "length D = processed s" and
    sub: "subseq (out_rows s) (?J D)" and
    cnt: "length (?J D) = total_joined_tuples s" and
    rest: "reader_rest s R"
    unfolding order_inv_def by blast
  have a: "full = (D @ [t]) @ stream_buffer ?s' @ R"
    using full assms(2) by simp
  have b: "length (D @ [t]) = processed ?s'"
    using len by simp
  have "subseq (out_rows ?s0) (?J D)"
    using sub by (simp add: out_rows_def)
  from process_tuple_out [OF this, of f t]
  have c: "subseq (out_rows ?s') (?J (D @ [t]))"
    by (simp add: joined_rows_append out_rows_def)
  have d: "length (?J (D @ [t])) = total_joined_tuples ?s'"
    using cnt process_tuple_joined [of f t ?s0] by (simp add: joined_rows_append)
  have e: "reader_rest ?s' R"
    using rest by (simp add: reader_rest_cong [of ?s' s])
  show ?thesis
    unfolding order_inv_def
    using a b c d e by (intro exI [of _ "D @ [t]"] exI [of _ R]) simp
qed

lemma order_inv_flush:
  assumes "order_inv full s"
  shows "order_inv full ((flush_if_any f s)\<lparr>joiner := pc\<rparr>)"
proof -
  let ?s' = "(flush_if_any f s)\<lparr>joiner := pc\<rparr>"
  let ?J = "joined_rows (customer_master s) (product_master s) (valid_dates s)"
  from assms(1) obtain D R where
    full: "full = D @ stream_buffer s @ R" and
    len: "length D = processed s" and
    sub: "subseq (out_rows s) (?J D)" and
    cnt: "length (?J D) = total_joined_tuples s" and
    rest: "reader_rest s R"
    unfolding order_inv_def by blast
  have "subseq (out_rows (flush_if_any f s)) (?J D)"
    using flush_if_any_out [of f s] sub subseq_order.trans by blast
  then have c: "subseq (out_rows ?s') (?J D)"
    by (simp add: out_rows_def)
  have e: "reader_rest ?s' R"
    using rest by (simp add: reader_rest_cong [of ?s' s])
  show ?thesis
    unfolding order_inv_def
    using full len c cnt e by (intro exI [of _ D] exI [of _ R]) simp
qed

lemma reader_rest_mono:
  "reader_rest s R \<Longrightarrow> reader s' = reader s \<Longrightarrow> (running s' \<longrightarrow> running s)
     \<Longrightarrow> reader_rest s' R"
  by (auto simp add: reader_rest_def split: reader_pc.splits)

lemma order_inv_cong:
  assumes "order_inv full s"
    and "stream_buffer s' = stream_buffer s" and "processed s' = processed s"
    and "db_conn s' = db_conn s" and "insert_batch s' = insert_batch s"
    and "customer_master s' = customer_master s" and "product_master s' = product_master s"
    and "valid_dates s' = valid_dates s" and "total_joined_tuples s' = total_joined_tuples s"
    and "reader s' = reader s" and "running s' \<longrightarrow> running s"
  shows "order_inv full s'"
proof -
  let ?J = "joined_rows (customer_master s) (product_master s) (valid_dates s)"
  from assms(1) obtain D R where
    full: "full = D @ stream_buffer s @ R" and
    len: "length D = processed s" and
    sub: "subseq (out_rows s) (?J D)" and
    cnt: "length (?J D) = total_joined_tuples s" and
    rest: "reader_rest s R"
    unfolding order_inv_def by blast
  have o: "out_rows s' = out_rows s"
    using assms(4,5) by (simp add: out_rows_def)
  have r: "reader_rest s' R"
    using rest assms(10,11) by (rule reader_rest_mono)
  show ?thesis
    unfolding order_inv_def
    using full len sub cnt r o assms(2,3,6,7,8,9)
    by (intro exI [of _ D] exI [of _ R]) simp
qed

lemma order_inv_pc:
  assumes "order_inv full s"
  shows "order_inv full (s\<lparr>joiner := pc\<rparr>)"
    "order_inv full (s\<lparr>join_ready := True, joiner := pc\<rparr>)"
    "order_inv full (s\<lparr>running := False\<rparr>)"
  by (rule order_inv_cong [OF assms]; simp)+

lemma order_inv_joiner:
  assumes "order_inv full s"
  shows "order_inv full (joiner_step f s)"
proof (cases "joiner s")
  case JGet
  then show ?thesis
    using assms order_inv_pop [OF assms] order_inv_pc(1) [OF assms]
    by (simp add: joiner_step_def split: list.splits)
next
  case JOnEmpty
  then show ?thesis
    using order_inv_flush [OF assms] order_inv_pc(1) [OF assms]
    by (simp add: joiner_step_def)
next
  case JFinal
  then show ?thesis
    using order_inv_flush [OF assms] by (simp add: joiner_step_def)
qed (use assms order_inv_pc [OF assms] in \<open>simp_all add: joiner_step_def\<close>)

lemma order_inv_step: "order_inv full s \<Longrightarrow> order_inv full (step e s)"
  by (cases e) (simp_all add: order_inv_reader order_inv_joiner order_inv_pc)

lemma order_inv_exec: "order_inv full s \<Longrightarrow> order_inv full (exec evs s)"
  by (induction evs arbitrary: s) (simp_all add: order_inv_step)

lemma order_inv_init: "order_inv (read_feed fd) (init_state bs cm pm vd fd)"
  by (simp add: order_inv_def init_state_def out_rows_def reader_rest_def joined_rows_def)

section \<open>Runs in which no flush fails\<close>









section \<open>Leaving the loop\<close>




section \<open>The states a run reaches\<close>

lemma reachable_invs:
  assumes "s = exec evs (init_state bs cm pm vd fd)"
  shows "counters_inv s" "flags_inv s" "order_inv (read_feed fd) s"
    "batch_size s = bs" "customer_master s = cm" "product_master s = pm" "valid_dates s = vd"
  using assms
  by (simp_all add: counters_inv_exec flags_inv_exec order_inv_exec init_invs order_inv_init
      exec_const, simp_all add: init_state_def)

lemma drained:
  assumes "s = exec evs (init_state bs cm pm vd fd)" and "joiner s = JDone" and "running s"
  shows "stream_buffer s = []" "reader s = RDone" "insert_batch s = []"
    "total_stream_tuples s = processed s"
  using reachable_invs(1,2) [OF assms(1)] assms(2,3)
  by (auto simp add: flags_inv_def counters_inv_def inflight_def)

lemma order_prefix:
  assumes "s = exec evs (init_state bs cm pm vd fd)"
  shows "\<exists>D R. read_feed fd = D @ stream_buffer s @ R \<and> length D = processed s
           \<and> subseq (out_rows s) (joined_rows cm pm vd D)
           \<and> length (joined_rows cm pm vd D) = total_joined_tuples s
           \<and> reader_rest s R"
  using reachable_invs(3,5,6,7) [OF assms] by (simp add: order_inv_def)



lemma read_rows_bad:
  assumes "list_all well_formed pre" and "make_transaction bad = Inl e"
  shows "read_rows (pre @ bad # post) = read_rows pre"
    "length (read_rows pre) = length pre"
  using assms
  by (induction pre) (auto simp add: well_formed_def split: sum.splits)

lemma read_chunks_bad:
  assumes "list_all well_formed pre" and "make_transaction bad = Inl e"
  shows "read_chunks (Chunk (pre @ bad # post) # cs) = read_rows pre"
proof -
  have "\<not> well_formed bad"
    using assms(2) by (simp add: well_formed_def)
  then show ?thesis
    using read_rows_bad(1) [OF assms] by simp
qed

lemma drained_all:
  assumes "s = exec evs (init_state bs cm pm vd fd)" and "joiner s = JDone" and "running s"
  shows "length (read_feed fd) = total_stream_tuples s"
    "subseq (fact_sales (db_conn s)) (joined_rows cm pm vd (read_feed fd))"
    "length (joined_rows cm pm vd (read_feed fd)) = total_joined_tuples s"
proof -
  from order_prefix [OF assms(1)] obtain D R where
    full: "read_feed fd = D @ stream_buffer s @ R" and
    len: "length D = processed s" and
    sub: "subseq (out_rows s) (joined_rows cm pm vd D)" and
    cnt: "length (joined_rows cm pm vd D) = total_joined_tuples s" and
    rest: "reader_rest s R"
    by blast
  have "R = []"
    using rest drained(2) [OF assms] assms(3) by (simp add: reader_rest_def)
  then have d: "read_feed fd = D"
    using full drained(1) [OF assms] by simp
  show "length (read_feed fd) = total_stream_tuples s"
    using d len drained(4) [OF assms] by simp
  show "subseq (fact_sales (db_conn s)) (joined_rows cm pm vd (read_feed fd))"
    using d sub drained(3) [OF assms] by (simp add: out_rows_def)
  show "length (joined_rows cm pm vd (read_feed fd)) = total_joined_tuples s"
    using d cnt by simp
qed


section \<open>Every file has a run that ends\<close>









section \<open>The product master and the example runs\<close>



lemma ex_date_id: "date_id_of ''2024-03-15'' = Inr 20240315"
  by code_simp

lemma ex_bad_date: "date_id_of ''bad-date'' = Inl ValueError"
  by code_simp

lemma ex_end_facts:
  "joiner ex_end = JDone" "running ex_end" "total_stream_tuples ex_end = 3"
  "total_joined_tuples ex_end = 1" "total_skipped ex_end = 2" "processed ex_end = 3"
  "insert_batch ex_end = []"
  "total_skipped (process_tuple NoFault ex_t2 ex_init) = 1"
  "insert_batch (process_tuple NoFault ex_t2 ex_init) = []"
  "join_tuple (customer_master ex_end) (product_master ex_end) (valid_dates ex_end) ex_t1
     = Inr ex_v1"
  "insert_batch (process_tuple NoFault ex_t1 ex_end) = [ex_v1]"
  by code_simp+

lemma ex_mid_facts:
  "insert_batch ex_mid = [ex_v1]"
  "join_tuple (customer_master ex_mid) (product_master ex_mid) (valid_dates ex_mid) ex_t1
     = Inr ex_v1"
  "insert_batch (process_tuple NoFault ex_t1 ex_mid) = []"
  "calls (db_conn ex_mid) = []"
  "calls (db_conn (process_tuple NoFault ex_t1 ex_mid))
     = [Cursor, ExecuteMany [ex_v1, ex_v1], Commit, Close]"
  by code_simp+



lemma ex_bad_facts:
  "reader ex_bad_mid = RNextRow [ex_bad_row, ex_row3] []" "running ex_bad_mid"
  "make_transaction ex_bad_row = Inl ValueError"
  "well_formed ex_row1" "well_formed ex_row3"
  "reader ex_bad_end = RDone" "joiner ex_bad_end = JDone" "running ex_bad_end"
  "stream_complete ex_bad_end"
  "total_stream_tuples ex_bad_end = 1"
  "read_feed ex_feed_bad = [ex_t1]"
  "read_rows [ex_row1] = [ex_t1]"
  "reader (reader_step ex_bad_mid) = RDone"
  by code_simp+


lemma ex_reached:
  "ex_end = exec ex_schedule (init_state 2 ex_customers ex_products ex_dates ex_feed)"
  "ex_mid = exec (take 11 ex_schedule) (init_state 2 ex_customers ex_products ex_dates ex_feed)"
  "ex_check = exec (take 28 ex_schedule) (init_state 2 ex_customers ex_products ex_dates ex_feed)"
  "ex_cancelled = exec (take 11 ex_schedule @ [Interrupt, JoinStep NoFault])
                    (init_state 2 ex_customers ex_products ex_dates ex_feed)"
  "ex_bad_mid = exec (take 6 ex_schedule_bad)
                  (init_state 2 ex_customers ex_products ex_dates ex_feed_bad)"
  "ex_bad_end = exec ex_schedule_bad (init_state 2 ex_customers ex_products ex_dates ex_feed_bad)"
  "ex_end5 = exec ex_schedule5 (init_state 2 ex_customers ex_products ex_dates ex_feed5)"
  by (simp_all add: ex_end_def ex_mid_def ex_check_def ex_cancelled_def ex_bad_mid_def
      ex_bad_end_def ex_end5_def ex_init_def ex_init_bad_def ex_init5_def)

section \<open>The join of one record\<close>



text \<open>
  C6. The chain is customer, product, date, and the first failure decides: with no
  customer the record leaves at the customer site whatever the product master and the
  dates are, with a customer but no product at the product site whatever the date is, and
  then at the date step, by a date that does not parse or by one that is not a valid
  date. Whatever the site, the effect is the same: the skipped counter goes up by one and
  nothing else but the count of processed records changes.
\<close>

theorem join_chain_order:
  "(cm (customer_id t) = None \<longrightarrow> join_tuple cm pm vd t = Inl CustomerMiss)
 \<and> (cm (customer_id t) \<noteq> None \<and> pm (product_id t) = None
      \<longrightarrow> join_tuple cm pm vd t = Inl ProductMiss)
 \<and> (cm (customer_id t) \<noteq> None \<and> pm (product_id t) \<noteq> None \<and> date_id_of (date t) = Inl e
      \<longrightarrow> join_tuple cm pm vd t = Inl DateError)
 \<and> (cm (customer_id t) \<noteq> None \<and> pm (product_id t) \<noteq> None \<and> date_id_of (date t) = Inr d
      \<and> d \<notin> vd \<longrightarrow> join_tuple cm pm vd t = Inl DateMiss)
 \<and> (join_tuple (customer_master s) (product_master s) (valid_dates s) t = Inl site
      \<longrightarrow> process_tuple f t s
          = s\<lparr>processed := processed s + 1, total_skipped := total_skipped s + 1\<rparr>)"
  by (auto simp add: join_tuple_def process_tuple_def Let_def split: option.splits sum.splits)

theorem join_chain_order_witness:
  "ex_customers (customer_id ex_t2) = None
   \<and> join_tuple ex_customers Map.empty {} ex_t2 = Inl CustomerMiss
   \<and> ex_customers (customer_id ex_t1) \<noteq> None \<and> Map.empty (product_id ex_t1) = None
   \<and> join_tuple ex_customers Map.empty {} ex_t1 = Inl ProductMiss
   \<and> ex_products (product_id ex_t3) \<noteq> None \<and> date_id_of (date ex_t3) = Inl ValueError
   \<and> join_tuple ex_customers ex_products ex_dates ex_t3 = Inl DateError
   \<and> date_id_of (date ex_t1) = Inr 20240315 \<and> 20240315 \<notin> {20240316::int}
   \<and> join_tuple ex_customers ex_products {20240316} ex_t1 = Inl DateMiss
   \<and> process_tuple NoFault ex_t3 ex_init = ex_init\<lparr>processed := 1, total_skipped := 1\<rparr>
   \<and> process_tuple NoFault ex_t2 ex_init = ex_init\<lparr>processed := 1, total_skipped := 1\<rparr>"
proof -
  have t3: "join_tuple (customer_master ex_init) (product_master ex_init) (valid_dates ex_init)
              ex_t3 = Inl DateError"
    using join_chain_order [where cm = ex_customers and t = ex_t3 and pm = ex_products
        and vd = ex_dates and e = ValueError]
    by (simp add: ex_init_def init_state_def ex_t3_def ex_customers_def ex_products_def
        ex_bad_date)
  have t2: "join_tuple (customer_master ex_init) (product_master ex_init) (valid_dates ex_init)
              ex_t2 = Inl CustomerMiss"
    using join_chain_order [where cm = ex_customers and t = ex_t2 and pm = ex_products
        and vd = ex_dates]
    by (simp add: ex_init_def init_state_def ex_t2_def ex_customers_def)
  have i: "processed ex_init = 0" "total_skipped ex_init = 0"
    by (simp_all add: ex_init_def init_state_def)
  show ?thesis
    using join_chain_order [where cm = ex_customers and t = ex_t2 and pm = Map.empty
        and vd = "{}"]
      join_chain_order [where cm = ex_customers and t = ex_t1 and pm = Map.empty and vd = "{}"]
      join_chain_order [where cm = ex_customers and t = ex_t3 and pm = ex_products
        and vd = ex_dates and e = ValueError and s = ex_init and site = DateError
        and f = NoFault]
      join_chain_order [where cm = ex_customers and t = ex_t1 and pm = ex_products
        and vd = "{20240316}" and d = 20240315]
      join_chain_order [where cm = ex_customers and t = ex_t2 and pm = ex_products
        and vd = ex_dates and s = ex_init and site = CustomerMiss and f = NoFault]
      t2 t3 i
    by (simp add: ex_t1_def ex_t2_def ex_t3_def ex_customers_def ex_products_def
        ex_date_id ex_bad_date)
qed

section \<open>flush_batch\<close>

text \<open>
  C9. \<open>flush_batch\<close> on an empty batch returns 0 and changes nothing: the object
  afterwards is the object before, so the loaded counter, the batch, the table and the log
  of database calls are as they were.
\<close>

theorem flush_batch_empty:
  "insert_batch s = [] \<Longrightarrow> flush_batch f s = (0, s)"
  by (simp add: flush_batch_def)

theorem flush_batch_empty_witness:
  "insert_batch ex_init = [] \<and> flush_batch CursorFault ex_init = (0, ex_init)
   \<and> calls (db_conn (snd (flush_batch CursorFault ex_init))) = []"
  using flush_batch_empty [of ex_init CursorFault]
  by (simp add: ex_init_def init_state_def)



section \<open>Products without a price\<close>



section \<open>The reader and malformed rows\<close>

text \<open>
  C2 as the code has it. In every state a run reaches: a row that does not convert to a
  record ends the reader, as a chunk that cannot be read and a file that cannot be opened
  do: the step sets the completion flag and leaves the reader at its end, with the rows
  and chunks behind the bad row unread. Whenever the reader is at its end the completion
  flag is set. The queue holds the next records of the file behind those already popped,
  where the records of the file stop at the first row that does not convert; at the end
  of a run that was not interrupted the reader has counted exactly these records. In a
  chunk, the records read are those of the rows ahead of the first bad row.
\<close>

theorem reader_aborts_on_bad_row:
  assumes "s = exec evs (init_state bs cm pm vd fd)"
  shows "(reader s = RNextRow (row # rows) cs \<and> running s \<and> make_transaction row = Inl e
          \<longrightarrow> reader_step s = s\<lparr>stream_complete := True, reader := RDone\<rparr>)
    \<and> (reader s = RNextChunk (ChunkError # cs)
          \<longrightarrow> reader_step s = s\<lparr>stream_complete := True, reader := RDone\<rparr>)
    \<and> (reader s = RWait OpenError \<and> join_ready s
          \<longrightarrow> reader_step s = s\<lparr>stream_complete := True, reader := RDone\<rparr>)
    \<and> (reader s = RDone \<longrightarrow> stream_complete s)
    \<and> prefix (stream_buffer s) (drop (processed s) (read_feed fd))
    \<and> (joiner s = JDone \<and> running s \<longrightarrow> total_stream_tuples s = length (read_feed fd))
    \<and> (list_all well_formed pre \<and> make_transaction bad = Inl e'
          \<longrightarrow> read_chunks (Chunk (pre @ bad # post) # cs') = read_rows pre
            \<and> length (read_rows pre) = length pre)"
proof -
  have a: "reader s = RNextRow (row # rows) cs \<and> running s \<and> make_transaction row = Inl e
          \<longrightarrow> reader_step s = s\<lparr>stream_complete := True, reader := RDone\<rparr>"
    by (simp add: reader_step_def reader_exit_def)
  have b: "reader s = RNextChunk (ChunkError # cs)
          \<longrightarrow> reader_step s = s\<lparr>stream_complete := True, reader := RDone\<rparr>"
    by (simp add: reader_step_def reader_exit_def)
  have c: "reader s = RWait OpenError \<and> join_ready s
          \<longrightarrow> reader_step s = s\<lparr>stream_complete := True, reader := RDone\<rparr>"
    by (simp add: reader_step_def reader_exit_def)
  have d: "reader s = RDone \<longrightarrow> stream_complete s"
    using reachable_invs(2) [OF assms] by (simp add: flags_inv_def)
  from order_prefix [OF assms] obtain D R where
    full: "read_feed fd = D @ stream_buffer s @ R" and
    len: "length D = processed s"
    by blast
  have e: "prefix (stream_buffer s) (drop (processed s) (read_feed fd))"
    using full len by simp
  have f: "joiner s = JDone \<and> running s \<longrightarrow> total_stream_tuples s = length (read_feed fd)"
    using drained_all(1) [OF assms] by simp
  have g: "list_all well_formed pre \<and> make_transaction bad = Inl e'
          \<longrightarrow> read_chunks (Chunk (pre @ bad # post) # cs') = read_rows pre
            \<and> length (read_rows pre) = length pre"
    using read_chunks_bad [of pre bad e' post cs'] read_rows_bad(2) [of pre bad e']
    by blast
  show ?thesis
    using a b c d e f g by blast
qed

theorem reader_aborts_on_bad_row_witness:
  "reader ex_bad_mid = RNextRow (ex_bad_row # [ex_row3]) [] \<and> running ex_bad_mid
   \<and> make_transaction ex_bad_row = Inl ValueError
   \<and> reader_step ex_bad_mid = ex_bad_mid\<lparr>stream_complete := True, reader := RDone\<rparr>
   \<and> reader ex_bad_end = RDone \<and> stream_complete ex_bad_end
   \<and> joiner ex_bad_end = JDone \<and> running ex_bad_end
   \<and> total_stream_tuples ex_bad_end = length (read_feed ex_feed_bad)
   \<and> read_feed ex_feed_bad = [ex_t1]
   \<and> list_all well_formed [ex_row1]
   \<and> read_chunks (Chunk ([ex_row1] @ ex_bad_row # [ex_row3]) # []) = [ex_t1]"
  using reader_aborts_on_bad_row [OF ex_reached(5), where row = ex_bad_row
      and rows = "[ex_row3]" and cs = "[]" and e = ValueError]
    reader_aborts_on_bad_row [OF ex_reached(6), where pre = "[ex_row1]" and bad = ex_bad_row
      and e' = ValueError and post = "[ex_row3]" and cs' = "[]"]
    ex_bad_facts
  by simp

text \<open>
  C2 as the claim has it fails: in the file of the three rows \<open>ex_row1\<close>,
  \<open>ex_bad_row\<close>, \<open>ex_row3\<close> the second row has no quantity and the third is well
  formed. In front of the second row the reader's step ends the reader instead of going
  on to the third row, and the run that takes both threads to their end has read one
  record, not the two of the well-formed rows.
\<close>

theorem bad_row_ends_reader_counterexample:
  "reader ex_bad_mid = RNextRow [ex_bad_row, ex_row3] []
   \<and> running ex_bad_mid
   \<and> make_transaction ex_bad_row = Inl ValueError
   \<and> well_formed ex_row3
   \<and> reader (reader_step ex_bad_mid) \<noteq> RNextRow [ex_row3] []
   \<and> reader (reader_step ex_bad_mid) = RDone
   \<and> reader ex_bad_end = RDone \<and> joiner ex_bad_end = JDone \<and> running ex_bad_end
   \<and> length (filter well_formed [ex_row1, ex_bad_row, ex_row3]) = 2
   \<and> total_stream_tuples ex_bad_end = 1"
  using ex_bad_facts by (simp add: well_formed_def)

section \<open>The counters\<close>



section \<open>The size of the batch\<close>

text \<open>
  C4. With a batch size of at least one, in every state a run reaches the batch is
  shorter than the batch size, so that it is at most the batch size with one more tuple
  appended. \<open>flush_batch\<close> leaves the batch empty. When the appended tuple brings the
  batch to the batch size, \<open>process_tuple\<close> flushes at once: the batch is empty
  afterwards and the connection has been asked for a cursor; otherwise the tuple is in
  the batch and the database is not touched.
\<close>

theorem batch_below_threshold:
  assumes "1 \<le> bs" and "s = exec evs (init_state bs cm pm vd fd)"
  shows "int (length (insert_batch s)) < bs
    \<and> int (length (insert_batch s @ [v])) \<le> bs
    \<and> insert_batch (snd (flush_batch f s0)) = []
    \<and> (join_tuple (customer_master s) (product_master s) (valid_dates s) t = Inr v \<longrightarrow>
         (if bs \<le> int (length (insert_batch s @ [v]))
          then insert_batch (process_tuple f t s) = []
             \<and> (\<exists>cs. calls (db_conn (process_tuple f t s)) = calls (db_conn s) @ Cursor # cs)
          else insert_batch (process_tuple f t s) = insert_batch s @ [v]
             \<and> db_conn (process_tuple f t s) = db_conn s))"
proof -
  have b: "batch_size s = bs"
    using assms(2) by (rule reachable_invs)
  have "batch_size (init_state bs cm pm vd fd) = bs"
    by (simp add: init_state_def)
  then have "batch_inv s"
    using assms by (simp add: batch_inv_exec init_invs)
  then have lt: "int (length (insert_batch s)) < bs"
    using b by (simp add: batch_inv_def)
  have p: "join_tuple (customer_master s) (product_master s) (valid_dates s) t = Inr v \<longrightarrow>
         (if bs \<le> int (length (insert_batch s @ [v]))
          then insert_batch (process_tuple f t s) = []
             \<and> (\<exists>cs. calls (db_conn (process_tuple f t s)) = calls (db_conn s) @ Cursor # cs)
          else insert_batch (process_tuple f t s) = insert_batch s @ [v]
             \<and> db_conn (process_tuple f t s) = db_conn s)"
    using b
      flush_batch_calls [of "s\<lparr>processed := processed s + 1,
        insert_batch := insert_batch s @ [v],
        total_joined_tuples := total_joined_tuples s + 1\<rparr>" f]
    by (simp add: process_tuple_def Let_def)
  show ?thesis
    using lt p by simp
qed

theorem batch_below_threshold_witness:
  "(1::int) \<le> 2
   \<and> insert_batch ex_mid = [ex_v1] \<and> int (length (insert_batch ex_mid)) < 2
   \<and> join_tuple (customer_master ex_mid) (product_master ex_mid) (valid_dates ex_mid) ex_t1
       = Inr ex_v1
   \<and> insert_batch (process_tuple NoFault ex_t1 ex_mid) = []
   \<and> calls (db_conn (process_tuple NoFault ex_t1 ex_mid))
       = calls (db_conn ex_mid) @ [Cursor, ExecuteMany [ex_v1, ex_v1], Commit, Close]
   \<and> insert_batch ex_end = []
   \<and> insert_batch (process_tuple NoFault ex_t1 ex_end) = insert_batch ex_end @ [ex_v1]
   \<and> db_conn (process_tuple NoFault ex_t1 ex_end) = db_conn ex_end"
proof -
  have one: "(1::int) \<le> 2"
    by simp
  show ?thesis
    using batch_below_threshold [OF one ex_reached(2), where v = ex_v1 and t = ex_t1
        and f = NoFault and ?s0.0 = ex_mid]
      batch_below_threshold [OF one ex_reached(1), where v = ex_v1 and t = ex_t1
        and f = NoFault and ?s0.0 = ex_end]
      ex_mid_facts ex_end_facts
    by simp
qed

section \<open>The end of the join loop\<close>



section \<open>The order of the output\<close>




end
